theory Spec2Isabelle
  imports Main
begin

section \<open>The room coordinator of server/server.ts\<close>

text \<open>
  The server keeps one global object \<open>rooms\<close>, keyed by the room code, and registers
  eight socket.io handlers per connection. Each handler runs to completion before the next
  event is handled, so a handler is a function from the store (and the identifier of the
  calling socket) to the new store and the list of emissions it made, in order.
\<close>

subsection \<open>Data\<close>

text \<open>
  \<open>socket.id\<close>: an opaque string that socket.io generates per connection (20 characters,
  never empty, never a decimal numeral), so as an object key it is kept in insertion
  order and is truthy.
\<close>

type_synonym socket_id = string

text \<open>
  A key of \<open>rooms\<close>. The only keys ever stored are
  \<open>Math.floor(1000 + Math.random() * 9000).toString()\<close>; the code is kept as the number,
  whose decimal numeral is the key. The \<open>room_id\<close> of \<open>join_room\<close> is the string the
  client sends (the client's \<open>joinRoom\<close> takes it as \<open>code: string\<close>); it is kept as the
  code it denotes.
  Strings that denote no number, among them the property names \<open>rooms\<close> inherits from
  \<open>Object.prototype\<close>, are outside the model, and so is a \<open>room_id\<close> sent as a JSON
  number, which reads the same key of \<open>rooms\<close> but names another socket.io channel.
\<close>

type_synonym room_code = nat

datatype color = White | Black

datatype game_state = Waiting | Playing | Finished

record player =
  color :: color
  name :: string

text \<open>The \<open>move\<close> payload of \<open>make_move\<close>: \<open>{ from, to, promotion? }\<close>.\<close>

record move =
  move_from :: string
  move_to :: string
  promotion :: "string option"

text \<open>
  chess.js is not part of the repository. The handlers use three of its operations, taken
  here as a parameter over the type \<open>'g\<close> of positions: \<open>new Chess()\<close>,
  \<open>game.turn()\<close> (\<open>'w'\<close> or \<open>'b'\<close>) and \<open>game.move(move)\<close>, which the handler treats as
  rejected when the result is falsy (\<open>None\<close>) and which otherwise has updated the position.
  The handler gives \<open>game.move\<close> the \<open>move\<close> object of the payload as it is. Where
  \<open>game.move\<close> throws on a move it refuses instead of returning a falsy value, the
  handler ends there without an emission; the store is the same in both cases.
\<close>

datatype turn = W | B

record 'g chess =
  chess_new :: 'g
  chess_turn :: "'g \<Rightarrow> turn"
  chess_move :: "'g \<Rightarrow> move \<Rightarrow> 'g option"

record 'g room =
  players :: "(socket_id \<times> player) list"
  game :: 'g
  gameState :: game_state

text \<open>
  The store: \<open>rooms\<close>, and the part of socket.io's adapter the handlers depend on, \<open>sids\<close>:
  the connected sockets, each with the room channels it has joined through
  \<open>socket.join\<close>. (Every socket is also in the channel named by its own id.)
\<close>

record 'g state =
  rooms :: "(room_code \<times> 'g room) list"
  sids :: "(socket_id \<times> room_code list) list"

subsection \<open>JavaScript objects as association lists\<close>

text \<open>
  Own keys of an object are enumerated with the integer-like keys first, in ascending
  numeric order, then the other string keys in insertion order. \<open>players\<close> has socket ids
  as keys (insertion order, \<open>obj_put\<close>); \<open>rooms\<close> has 4-digit numerals as keys (ascending
  order, \<open>idx_put\<close>). Reading a key is \<open>map_of\<close>.
\<close>

fun obj_put :: "'k \<Rightarrow> 'v \<Rightarrow> ('k \<times> 'v) list \<Rightarrow> ('k \<times> 'v) list" where
  "obj_put k v [] = [(k, v)]"
| "obj_put k v ((k', v') # kvs) =
     (if k = k' then (k, v) # kvs else (k', v') # obj_put k v kvs)"

fun idx_put :: "nat \<Rightarrow> 'v \<Rightarrow> (nat \<times> 'v) list \<Rightarrow> (nat \<times> 'v) list" where
  "idx_put k v [] = [(k, v)]"
| "idx_put k v ((k', v') # kvs) =
     (if k = k' then (k, v) # kvs
      else if k < k' then (k, v) # (k', v') # kvs
      else (k', v') # idx_put k v kvs)"

definition obj_delete :: "'k \<Rightarrow> ('k \<times> 'v) list \<Rightarrow> ('k \<times> 'v) list" where
  "obj_delete k kvs = filter (\<lambda>kv. fst kv \<noteq> k) kvs"

subsection \<open>Emissions\<close>

datatype channel = RoomChannel room_code | SocketChannel socket_id

text \<open>
  \<open>socket.emit(..)\<close>, \<open>socket.to(ch).emit(..)\<close> (every socket in the channel except the
  calling one) and \<open>io.to(ch).emit(..)\<close> (every socket in the channel).
\<close>

datatype target =
    Socket socket_id
  | SocketTo socket_id channel
  | IoTo channel

datatype event =
    RoomCreated room_code color game_state
  | Error string
  | RoomJoined room_code color string game_state
  | OpponentJoined string game_state
  | ChessMove string string string string color
  | DrawOffered
  | DrawResponseEv bool
  | GameEnded string string
  | OpponentResigned
  | PlayerDisconnected string string game_state

type_synonym emission = "target \<times> event"

fun in_channel :: "channel \<Rightarrow> socket_id \<times> room_code list \<Rightarrow> bool" where
  "in_channel (RoomChannel c) (sid, cs) = (c \<in> set cs)"
| "in_channel (SocketChannel sid') (sid, cs) = (sid = sid')"

fun recipients :: "(socket_id \<times> room_code list) list \<Rightarrow> target \<Rightarrow> socket_id list" where
  "recipients ss (Socket sid) = [sid]"
| "recipients ss (SocketTo sid ch) =
     filter (\<lambda>r. r \<noteq> sid) (map fst (filter (in_channel ch) ss))"
| "recipients ss (IoTo ch) = map fst (filter (in_channel ch) ss)"

text \<open>\<open>socket.join(roomId)\<close> of a connected socket.\<close>

definition sio_join :: "socket_id \<Rightarrow> room_code \<Rightarrow> (socket_id \<times> room_code list) list
    \<Rightarrow> (socket_id \<times> room_code list) list" where
  "sio_join sid c ss = map (\<lambda>(s, cs). if s = sid then (s, List.insert c cs) else (s, cs)) ss"

subsection \<open>The handlers\<close>

text \<open>
  The scan that opens \<open>make_move\<close>, \<open>offer_draw\<close>, \<open>draw_response\<close>, \<open>resign_game\<close> and
  \<open>disconnect\<close>: the first room, in the enumeration order of \<open>rooms\<close>, whose \<open>players\<close> has
  the socket's id.
\<close>

definition find_room :: "'g state \<Rightarrow> socket_id \<Rightarrow> (room_code \<times> 'g room) option" where
  "find_room s sid = find (\<lambda>(id, room). map_of (players room) sid \<noteq> None) (rooms s)"

text \<open>\<open>playerIds.find(id => id !== socket.id)\<close>\<close>

definition opponent_of :: "'g room \<Rightarrow> socket_id \<Rightarrow> socket_id option" where
  "opponent_of room sid = find (\<lambda>id. id \<noteq> sid) (map fst (players room))"

text \<open>
  \<open>create_room\<close>. \<open>draw\<close> is \<open>Math.floor(Math.random() * 9000)\<close>, a number below 9000, so
  that \<open>roomId\<close> is \<open>1000 + draw\<close>.
\<close>

definition create_room ::
  "'g chess \<Rightarrow> 'g state \<Rightarrow> socket_id \<Rightarrow> string \<Rightarrow> nat \<Rightarrow> 'g state \<times> emission list" where
  "create_room E s sid playerName draw =
     (let roomId = 1000 + draw in
      (s\<lparr>rooms := idx_put roomId
            \<lparr>players = [(sid, \<lparr>color = White, name = playerName\<rparr>)],
             game = chess_new E, gameState = Waiting\<rparr> (rooms s),
         sids := sio_join sid roomId (sids s)\<rparr>,
       [(Socket sid, RoomCreated roomId White Waiting)]))"

text \<open>
  \<open>join_room\<close>. After the three guards the room is mutated and the socket joins the
  channel; \<open>room.players[playerIds[0]].name\<close> then throws a TypeError when \<open>playerIds\<close> is
  empty.
\<close>

datatype js_error = TypeError

definition join_room ::
  "'g state \<Rightarrow> socket_id \<Rightarrow> room_code \<Rightarrow> string \<Rightarrow> js_error + 'g state \<times> emission list" where
  "join_room s sid room_id player_name =
     (case map_of (rooms s) room_id of
        None \<Rightarrow> Inr (s, [(Socket sid, Error ''Room not found'')])
      | Some room \<Rightarrow>
          if length (players room) \<ge> 2 then Inr (s, [(Socket sid, Error ''Room is full'')])
          else
            let playerIds = map fst (players room) in
            if sid \<in> set playerIds
            then Inr (s, [(Socket sid, Error ''You are already in this room'')])
            else
              let room' = room\<lparr>players :=
                              obj_put sid \<lparr>color = Black, name = player_name\<rparr> (players room),
                            gameState := Playing\<rparr>;
                  s' = s\<lparr>rooms := idx_put room_id room' (rooms s),
                        sids := sio_join sid room_id (sids s)\<rparr>
              in (case playerIds of
                    [] \<Rightarrow> Inl TypeError
                  | opponentId # _ \<Rightarrow>
                      (case map_of (players room') opponentId of
                         None \<Rightarrow> Inl TypeError
                       | Some opponent \<Rightarrow>
                           Inr (s',
                             [(Socket sid, RoomJoined room_id Black (name opponent) Playing),
                              (SocketTo sid (RoomChannel room_id),
                                 OpponentJoined player_name Playing)]))))"

text \<open>\<open>move.promotion || 'q'\<close>: an absent or empty promotion is falsy.\<close>

definition promotion_or_q :: "move \<Rightarrow> string" where
  "promotion_or_q m =
     (case promotion m of None \<Rightarrow> ''q'' | Some p \<Rightarrow> if p = [] then ''q'' else p)"

definition make_move ::
  "'g chess \<Rightarrow> 'g state \<Rightarrow> socket_id \<Rightarrow> move \<Rightarrow> 'g state \<times> emission list" where
  "make_move E s sid m =
     (case find_room s sid of
        None \<Rightarrow> (s, [(Socket sid, Error ''Not in a game'')])
      | Some (roomId, playerRoom) \<Rightarrow>
          (case map_of (players playerRoom) sid of
             None \<Rightarrow> (s, [(Socket sid, Error ''Not your turn'')])
           | Some player \<Rightarrow>
               if color player = (if chess_turn E (game playerRoom) = W then White else Black)
               then
                 (case chess_move E (game playerRoom) m of
                    Some g' \<Rightarrow>
                      (s\<lparr>rooms := idx_put roomId (playerRoom\<lparr>game := g'\<rparr>) (rooms s)\<rparr>,
                       [(IoTo (RoomChannel roomId),
                           ChessMove (move_from m) (move_to m) (promotion_or_q m)
                             (name player) (color player))])
                  | None \<Rightarrow> (s, [(Socket sid, Error ''Invalid move'')]))
               else (s, [(Socket sid, Error ''Not your turn'')])))"

definition offer_draw :: "'g state \<Rightarrow> socket_id \<Rightarrow> 'g state \<times> emission list" where
  "offer_draw s sid =
     (case find_room s sid of
        None \<Rightarrow> (s, [])
      | Some (roomId, playerRoom) \<Rightarrow>
          (case opponent_of playerRoom sid of
             None \<Rightarrow> (s, [])
           | Some opponentId \<Rightarrow> (s, [(SocketTo sid (SocketChannel opponentId), DrawOffered)])))"

definition draw_response :: "'g state \<Rightarrow> socket_id \<Rightarrow> bool \<Rightarrow> 'g state \<times> emission list" where
  "draw_response s sid accepted =
     (case find_room s sid of
        None \<Rightarrow> (s, [])
      | Some (roomId, playerRoom) \<Rightarrow>
          (case opponent_of playerRoom sid of
             None \<Rightarrow> (s, [])
           | Some opponentId \<Rightarrow>
               if accepted
               then (s\<lparr>rooms := idx_put roomId (playerRoom\<lparr>gameState := Finished\<rparr>) (rooms s)\<rparr>,
                     [(SocketTo sid (SocketChannel opponentId), DrawResponseEv accepted),
                      (IoTo (RoomChannel roomId), GameEnded ''draw'' ''Draw by agreement'')])
               else (s, [(SocketTo sid (SocketChannel opponentId), DrawResponseEv accepted)])))"

definition resign_game :: "'g state \<Rightarrow> socket_id \<Rightarrow> 'g state \<times> emission list" where
  "resign_game s sid =
     (case find_room s sid of
        None \<Rightarrow> (s, [])
      | Some (roomId, playerRoom) \<Rightarrow>
          (case opponent_of playerRoom sid of
             None \<Rightarrow> (s, [])
           | Some opponentId \<Rightarrow>
               (s\<lparr>rooms := idx_put roomId (playerRoom\<lparr>gameState := Finished\<rparr>) (rooms s)\<rparr>,
                [(SocketTo sid (SocketChannel opponentId), OpponentResigned)])))"

text \<open>
  \<open>disconnect\<close>. socket.io has taken the socket out of every channel when the handler
  runs. The handler deletes the socket's entry of the first room that has one, and only
  then reads \<open>room.players[socket.id]?.name || 'Unknown'\<close> and
  \<open>room.players[socket.id]?.color || 'unknown'\<close> for the payload.
\<close>

fun color_string :: "color \<Rightarrow> string" where
  "color_string White = ''white''"
| "color_string Black = ''black''"

definition disconnect :: "'g state \<Rightarrow> socket_id \<Rightarrow> 'g state \<times> emission list" where
  "disconnect s0 sid =
     (let s = s0\<lparr>sids := obj_delete sid (sids s0)\<rparr> in
      case find_room s sid of
        None \<Rightarrow> (s, [])
      | Some (roomId, room) \<Rightarrow>
          let players' = obj_delete sid (players room);
              room' = room\<lparr>players := players'\<rparr>;
              ev = (SocketTo sid (RoomChannel roomId),
                    PlayerDisconnected
                      (case map_of players' sid of
                         None \<Rightarrow> ''Unknown''
                       | Some p \<Rightarrow> if name p = [] then ''Unknown'' else name p)
                      (case map_of players' sid of
                         None \<Rightarrow> ''unknown''
                       | Some p \<Rightarrow> color_string (color p))
                      Finished)
          in if length players' = 0
             then (s\<lparr>rooms := obj_delete roomId (rooms s)\<rparr>, [ev])
             else (s\<lparr>rooms := idx_put roomId room' (rooms s)\<rparr>, [ev]))"

subsection \<open>The coordinator as a transition system\<close>

datatype intent =
    Connect socket_id
  | CreateRoom socket_id string nat
  | JoinRoom socket_id room_code string
  | MakeMove socket_id move
  | OfferDraw socket_id
  | DrawResponse socket_id bool
  | ResignGame socket_id
  | Disconnect socket_id

text \<open>\<open>io.on('connection', ..)\<close> registers the handlers; the adapter has the new socket.\<close>

definition connection :: "'g state \<Rightarrow> socket_id \<Rightarrow> 'g state \<times> emission list" where
  "connection s sid = (s\<lparr>sids := sids s @ [(sid, [])]\<rparr>, [])"

fun step :: "'g chess \<Rightarrow> intent \<Rightarrow> 'g state \<Rightarrow> js_error + 'g state \<times> emission list" where
  "step E (Connect sid) s = Inr (connection s sid)"
| "step E (CreateRoom sid playerName draw) s = Inr (create_room E s sid playerName draw)"
| "step E (JoinRoom sid room_id player_name) s = join_room s sid room_id player_name"
| "step E (MakeMove sid m) s = Inr (make_move E s sid m)"
| "step E (OfferDraw sid) s = Inr (offer_draw s sid)"
| "step E (DrawResponse sid accepted) s = Inr (draw_response s sid accepted)"
| "step E (ResignGame sid) s = Inr (resign_game s sid)"
| "step E (Disconnect sid) s = Inr (disconnect s sid)"

text \<open>
  What the environment guarantees of an intent: a new connection has an id that is in use
  nowhere, every other intent comes from a connected socket, and the draw of
  \<open>create_room\<close> is below 9000.
\<close>

definition connected :: "'g state \<Rightarrow> socket_id \<Rightarrow> bool" where
  "connected s sid = (sid \<in> fst ` set (sids s))"

definition member_of :: "'g room \<Rightarrow> socket_id \<Rightarrow> bool" where
  "member_of room sid = (sid \<in> fst ` set (players room))"

fun sender :: "intent \<Rightarrow> socket_id" where
  "sender (Connect sid) = sid"
| "sender (CreateRoom sid _ _) = sid"
| "sender (JoinRoom sid _ _) = sid"
| "sender (MakeMove sid _) = sid"
| "sender (OfferDraw sid) = sid"
| "sender (DrawResponse sid _) = sid"
| "sender (ResignGame sid) = sid"
| "sender (Disconnect sid) = sid"

fun admissible :: "'g state \<Rightarrow> intent \<Rightarrow> bool" where
  "admissible s (Connect sid) =
     (\<not> connected s sid \<and> list_all (\<lambda>(c, room). \<not> member_of room sid) (rooms s))"
| "admissible s (CreateRoom sid playerName draw) = (connected s sid \<and> draw < 9000)"
| "admissible s i = connected s (sender i)"

definition init :: "'g state" where
  "init = \<lparr>rooms = [], sids = []\<rparr>"

text \<open>
  Running a list of intents from a store; \<open>None\<close> when an intent is not admissible or a
  handler throws.
\<close>

fun run :: "'g chess \<Rightarrow> intent list \<Rightarrow> 'g state \<Rightarrow> 'g state option" where
  "run E [] s = Some s"
| "run E (i # is) s =
     (if admissible s i
      then (case step E i s of Inl e \<Rightarrow> None | Inr (s', evs) \<Rightarrow> run E is s')
      else None)"

inductive reachable :: "'g chess \<Rightarrow> 'g state \<Rightarrow> bool" for E :: "'g chess" where
  reachable_init: "reachable E init"
| reachable_step:
    "reachable E s \<Longrightarrow> admissible s i \<Longrightarrow> step E i s = Inr (s', evs) \<Longrightarrow> reachable E s'"

subsection \<open>Predicates on stores\<close>

text \<open>
  The keys of \<open>rooms\<close> in strictly ascending order: what enumerating a JavaScript object
  with integer-like keys gives.
\<close>

definition keys_ok :: "'g state \<Rightarrow> bool" where
  "keys_ok s = sorted_wrt (<) (map fst (rooms s))"

text \<open>The order of the phases, \<open>waiting\<close> before \<open>playing\<close> before \<open>finished\<close>.\<close>

fun phase_rank :: "game_state \<Rightarrow> nat" where
  "phase_rank Waiting = 0"
| "phase_rank Playing = 1"
| "phase_rank Finished = 2"

text \<open>The socket has an entry in \<open>players\<close> of the room stored under the code.\<close>

definition in_room :: "'g state \<Rightarrow> room_code \<Rightarrow> socket_id \<Rightarrow> bool" where
  "in_room s c sid = (case map_of (rooms s) c of None \<Rightarrow> False | Some room \<Rightarrow> member_of room sid)"

subsection \<open>Concrete stores for evaluating the handlers\<close>

text \<open>
  A stand-in for chess.js, used only where a handler is evaluated on a concrete store: its
  position is the list of the moves played and the sides alternate from white. Its move
  operation stands for no rule of chess, and no evaluation below reaches it.
\<close>

definition recorder :: "move list chess" where
  "recorder =
     \<lparr>chess_new = [],
      chess_turn = (\<lambda>g. if even (length g) then W else B),
      chess_move = (\<lambda>g m. Some (g @ [m]))\<rparr>"

definition alice :: player where
  "alice = \<lparr>color = White, name = ''Alice''\<rparr>"

definition bob :: player where
  "bob = \<lparr>color = Black, name = ''Bob''\<rparr>"

text \<open>The room after \<open>''a''\<close> created it and \<open>''b''\<close> joined it, and the store holding it.\<close>

definition room_ab :: "move list room" where
  "room_ab = \<lparr>players = [(''a'', alice), (''b'', bob)], game = [], gameState = Playing\<rparr>"

definition alice_bob :: "move list state" where
  "alice_bob = \<lparr>rooms = [(4821, room_ab)], sids = [(''a'', [4821]), (''b'', [4821])]\<rparr>"

text \<open>The store after \<open>''a''\<close> created room 4821 and nobody joined.\<close>

definition room_a :: "move list room" where
  "room_a = \<lparr>players = [(''a'', alice)], game = [], gameState = Waiting\<rparr>"

definition alice_waiting :: "move list state" where
  "alice_waiting = \<lparr>rooms = [(4821, room_a)], sids = [(''a'', [4821])]\<rparr>"

definition e7e5 :: move where
  "e7e5 = \<lparr>move_from = ''e7'', move_to = ''e5'', promotion = None\<rparr>"

text \<open>\<open>''a''\<close> connected and nothing else happened.\<close>

definition only_a :: "move list state" where
  "only_a = \<lparr>rooms = [], sids = [(''a'', [])]\<rparr>"

text \<open>The room of \<open>''a''\<close> and \<open>''b''\<close> after a resignation.\<close>

definition room_ab_finished :: "move list room" where
  "room_ab_finished = room_ab\<lparr>gameState := Finished\<rparr>"

definition alice_bob_finished :: "move list state" where
  "alice_bob_finished = alice_bob\<lparr>rooms := [(4821, room_ab_finished)]\<rparr>"

text \<open>The intents that lead from the empty store to \<open>alice_bob\<close>; none is a draw offer.\<close>

definition session_ab :: "intent list" where
  "session_ab =
     [Connect ''a'', CreateRoom ''a'' ''Alice'' 3821, Connect ''b'', JoinRoom ''b'' 4821 ''Bob'']"

text \<open>
  Two waiting rooms: \<open>''a''\<close> created room 4821 and \<open>''b''\<close> created room 5000.
\<close>

definition room_b :: "move list room" where
  "room_b = \<lparr>players = [(''b'', \<lparr>color = White, name = ''Bob''\<rparr>)], game = [],
              gameState = Waiting\<rparr>"

definition two_rooms :: "move list state" where
  "two_rooms =
     \<lparr>rooms = [(4821, room_a), (5000, room_b)], sids = [(''a'', [4821]), (''b'', [5000])]\<rparr>"

section \<open>Properties of the handlers\<close>

subsection \<open>Objects, the scan and the handlers' effect on the store\<close>

lemma map_of_idx_put: "map_of (idx_put k v kvs) = (map_of kvs)(k \<mapsto> v)"
  by (induction kvs) (auto simp: fun_upd_twist)

lemma keys_idx_put: "fst ` set (idx_put k v kvs) = insert k (fst ` set kvs)"
  by (simp add: dom_map_of_conv_image_fst [symmetric] map_of_idx_put)

lemma sorted_idx_put:
  "sorted_wrt (<) (map fst kvs) \<Longrightarrow> sorted_wrt (<) (map fst (idx_put k v kvs))"
proof (induction kvs)
  case Nil
  then show ?case by simp
next
  case (Cons kv kvs)
  obtain k' v' where kv: "kv = (k', v')" by (cases kv)
  show ?case
  proof (cases "k = k'")
    case True
    with Cons.prems kv show ?thesis by simp
  next
    case False
    show ?thesis
    proof (cases "k < k'")
      case True
      with Cons.prems kv False show ?thesis by auto
    next
      case ge: False
      from Cons.prems kv have "\<forall>x \<in> fst ` set kvs. k' < x" by auto
      with ge False have "\<forall>x \<in> fst ` set (idx_put k v kvs). k' < x"
        unfolding keys_idx_put by auto
      with Cons kv False ge show ?thesis by auto
    qed
  qed
qed

lemma map_of_obj_delete: "map_of (obj_delete k kvs) = (map_of kvs)(k := None)"
  by (induction kvs) (auto simp: obj_delete_def)

lemma sorted_obj_delete:
  "sorted_wrt (<) (map fst kvs) \<Longrightarrow> sorted_wrt (<) (map fst (obj_delete k kvs))"
  by (simp add: obj_delete_def sorted_wrt_map sorted_wrt_filter)

lemma find_room_in:
  assumes "find_room s sid = Some (c, r)"
  shows "(c, r) \<in> set (rooms s) \<and> member_of r sid"
proof -
  from assms have "(c, r) \<in> set (rooms s)" and "map_of (players r) sid \<noteq> None"
    by (auto simp: find_room_def find_Some_iff in_set_conv_nth)
  then show ?thesis
    by (auto simp: member_of_def map_of_eq_None_iff)
qed

lemma find_room_map_of:
  assumes "keys_ok s" and "find_room s sid = Some (c, r)"
  shows "map_of (rooms s) c = Some r"
proof -
  from assms(1) have "distinct (map fst (rooms s))"
    by (simp add: keys_ok_def strict_sorted_iff)
  with find_room_in [OF assms(2)] show ?thesis by simp
qed

lemma find_room_sids [simp]: "find_room (s\<lparr>sids := ss\<rparr>) sid = find_room s sid"
  by (simp add: find_room_def)

lemma join_room_cases:
  assumes "join_room s sid room_id nm = Inr (s', evs)"
  shows "s' = s \<or> (\<exists>room. map_of (rooms s) room_id = Some room \<and> length (players room) < 2
            \<and> \<not> member_of room sid
            \<and> s' = s\<lparr>rooms := idx_put room_id
                     (room\<lparr>players := obj_put sid \<lparr>color = Black, name = nm\<rparr> (players room),
                           gameState := Playing\<rparr>) (rooms s),
                    sids := sio_join sid room_id (sids s)\<rparr>)"
  using assms
  by (auto simp: join_room_def Let_def member_of_def
           split: option.splits if_splits list.splits)

lemma make_move_cases:
  assumes "make_move E s sid m = (s', evs)"
  shows "s' = s \<or> (\<exists>roomId playerRoom g'. find_room s sid = Some (roomId, playerRoom)
            \<and> s' = s\<lparr>rooms := idx_put roomId (playerRoom\<lparr>game := g'\<rparr>) (rooms s)\<rparr>)"
  using assms
  by (auto simp: make_move_def split: option.splits if_splits)

lemma draw_response_cases:
  assumes "draw_response s sid accepted = (s', evs)"
  shows "s' = s \<or> (\<exists>roomId playerRoom. find_room s sid = Some (roomId, playerRoom)
            \<and> s' = s\<lparr>rooms := idx_put roomId (playerRoom\<lparr>gameState := Finished\<rparr>) (rooms s)\<rparr>)"
  using assms
  by (auto simp: draw_response_def split: option.splits if_splits)

lemma resign_game_cases:
  assumes "resign_game s sid = (s', evs)"
  shows "s' = s \<or> (\<exists>roomId playerRoom. find_room s sid = Some (roomId, playerRoom)
            \<and> s' = s\<lparr>rooms := idx_put roomId (playerRoom\<lparr>gameState := Finished\<rparr>) (rooms s)\<rparr>)"
  using assms
  by (auto simp: resign_game_def split: option.splits if_splits)

lemma offer_draw_state: "fst (offer_draw s sid) = s"
  by (simp add: offer_draw_def split: option.splits)

lemma disconnect_cases:
  assumes "disconnect s sid = (s', evs)"
  shows "sids s' = obj_delete sid (sids s) \<and>
         (rooms s' = rooms s
          \<or> (\<exists>roomId room. find_room s sid = Some (roomId, room)
               \<and> (rooms s' = obj_delete roomId (rooms s)
                  \<or> rooms s' = idx_put roomId (room\<lparr>players := obj_delete sid (players room)\<rparr>)
                                 (rooms s))))"
  using assms
  by (auto simp: disconnect_def Let_def split: option.splits if_splits)

lemma step_keys_ok:
  assumes "keys_ok s" and "step E i s = Inr (s', evs)"
  shows "keys_ok s'"
proof (cases i)
  case (Connect sid)
  with assms show ?thesis by (auto simp: connection_def keys_ok_def)
next
  case (CreateRoom sid nm draw)
  with assms show ?thesis by (auto simp: create_room_def keys_ok_def Let_def sorted_idx_put)
next
  case (JoinRoom sid c nm)
  with assms join_room_cases [of s sid c nm s' evs] show ?thesis
    by (auto simp: keys_ok_def sorted_idx_put)
next
  case (MakeMove sid m)
  with assms make_move_cases [of E s sid m s' evs] show ?thesis
    by (auto simp: keys_ok_def sorted_idx_put)
next
  case (OfferDraw sid)
  with assms offer_draw_state [of s sid] show ?thesis by auto
next
  case (DrawResponse sid a)
  with assms draw_response_cases [of s sid a s' evs] show ?thesis
    by (auto simp: keys_ok_def sorted_idx_put)
next
  case (ResignGame sid)
  with assms resign_game_cases [of s sid s' evs] show ?thesis
    by (auto simp: keys_ok_def sorted_idx_put)
next
  case (Disconnect sid)
  with assms disconnect_cases [of s sid s' evs] show ?thesis
    by (auto simp: keys_ok_def sorted_idx_put sorted_obj_delete)
qed

lemma reachable_keys_ok: "reachable E s \<Longrightarrow> keys_ok s"
proof (induction rule: reachable.induct)
  case reachable_init
  show ?case by (simp add: keys_ok_def init_def)
next
  case (reachable_step s i s' evs)
  then show ?case using step_keys_ok by blast
qed

lemma run_reachable: "reachable E s \<Longrightarrow> run E is s = Some s' \<Longrightarrow> reachable E s'"
proof (induction "is" arbitrary: s)
  case Nil
  then show ?case by simp
next
  case (Cons i "is")
  then show ?case
    by (auto split: if_splits sum.splits intro: reachable_step)
qed

lemma map_of_obj_put: "map_of (obj_put k v kvs) = (map_of kvs)(k \<mapsto> v)"
  by (induction kvs) (auto simp: fun_upd_twist)

lemma keys_obj_put: "fst ` set (obj_put k v kvs) = insert k (fst ` set kvs)"
  by (simp add: dom_map_of_conv_image_fst [symmetric] map_of_obj_put)

text \<open>How one step changes the room stored under a code.\<close>

lemma step_room_cases:
  assumes ok: "keys_ok s" and st: "step E i s = Inr (s', evs)"
    and r': "map_of (rooms s') c = Some r'"
  shows "(\<exists>r. map_of (rooms s) c = Some r \<and>
            (r' = r \<or> (\<exists>g'. r' = r\<lparr>game := g'\<rparr>) \<or> r' = r\<lparr>gameState := Finished\<rparr>
             \<or> r' = r\<lparr>players := obj_delete (sender i) (players r)\<rparr>
             \<or> (\<exists>nm. i = JoinRoom (sender i) c nm \<and> length (players r) < 2
                    \<and> \<not> member_of r (sender i)
                    \<and> r' = r\<lparr>players := obj_put (sender i) \<lparr>color = Black, name = nm\<rparr> (players r),
                             gameState := Playing\<rparr>)))
       \<or> (\<exists>nm draw. i = CreateRoom (sender i) nm draw \<and> c = 1000 + draw
             \<and> r' = \<lparr>players = [(sender i, \<lparr>color = White, name = nm\<rparr>)],
                     game = chess_new E, gameState = Waiting\<rparr>)"
proof (cases i)
  case (Connect sid)
  with st r' show ?thesis by (auto simp: connection_def)
next
  case (CreateRoom sid nm draw)
  with st r' show ?thesis
    by (auto simp: create_room_def Let_def map_of_idx_put split: if_splits)
next
  case (JoinRoom sid room_id nm)
  with st have "join_room s sid room_id nm = Inr (s', evs)" by simp
  from join_room_cases [OF this] r' JoinRoom show ?thesis
    by (auto simp: map_of_idx_put split: if_splits)
next
  case (MakeMove sid m)
  with st have "make_move E s sid m = (s', evs)" by simp
  from make_move_cases [OF this] r' find_room_map_of [OF ok] show ?thesis
    by (auto simp: map_of_idx_put split: if_splits)
next
  case (OfferDraw sid)
  with st r' offer_draw_state [of s sid] show ?thesis by auto
next
  case (DrawResponse sid a)
  with st have "draw_response s sid a = (s', evs)" by simp
  from draw_response_cases [OF this] r' find_room_map_of [OF ok] show ?thesis
    by (auto simp: map_of_idx_put split: if_splits)
next
  case (ResignGame sid)
  with st have "resign_game s sid = (s', evs)" by simp
  from resign_game_cases [OF this] r' find_room_map_of [OF ok] show ?thesis
    by (auto simp: map_of_idx_put split: if_splits)
next
  case (Disconnect sid)
  with st have "disconnect s sid = (s', evs)" by simp
  from disconnect_cases [OF this] r' find_room_map_of [OF ok] Disconnect show ?thesis
    by (auto simp: map_of_idx_put map_of_obj_delete split: if_splits)
qed

lemma step_member_cases:
  assumes "keys_ok s" and "step E i s = Inr (s', evs)"
    and "map_of (rooms s') c = Some r'" and "member_of r' p"
  shows "(\<exists>r. map_of (rooms s) c = Some r \<and> member_of r p)
       \<or> (\<exists>nm draw. i = CreateRoom p nm draw \<and> c = 1000 + draw)
       \<or> (\<exists>nm. i = JoinRoom p c nm)"
  using step_room_cases [OF assms(1,2,3)] assms(4)
  by (elim disjE exE conjE) (auto simp: member_of_def obj_delete_def keys_obj_put)

text \<open>\<open>socket.to(id)\<close> for the id of another socket reaches that socket if it is connected.\<close>

lemma recipients_socket_channel:
  assumes "opponentId \<noteq> sid"
  shows "set (recipients ss (SocketTo sid (SocketChannel opponentId)))
           = (if opponentId \<in> fst ` set ss then {opponentId} else {})"
proof -
  have ic: "in_channel (SocketChannel opponentId) e = (fst e = opponentId)" for e
    by (cases e) auto
  have "fst ` {e \<in> set ss. fst e = opponentId}
          = (if opponentId \<in> fst ` set ss then {opponentId} else {})"
    by force
  with assms show ?thesis by (simp add: ic)
qed

subsection \<open>Evaluating the handlers on the concrete stores\<close>

lemmas handler_defs = init_def connected_def member_of_def connection_def create_room_def
  join_room_def make_move_def offer_draw_def draw_response_def resign_game_def disconnect_def
  find_room_def opponent_of_def sio_join_def obj_delete_def promotion_or_q_def Let_def

lemmas concrete_defs = recorder_def alice_def bob_def room_ab_def alice_bob_def room_a_def
  alice_waiting_def e7e5_def session_ab_def only_a_def room_ab_finished_def
  alice_bob_finished_def room_b_def two_rooms_def

lemma session_ab_run: "run recorder session_ab init = Some alice_bob"
  by (simp add: handler_defs concrete_defs)

lemma alice_bob_reachable: "reachable recorder alice_bob"
  using run_reachable [OF reachable_init session_ab_run] .

lemma only_a_reachable: "reachable recorder only_a"
proof -
  have "run recorder [Connect ''a''] init = Some only_a"
    by (simp add: handler_defs concrete_defs)
  from run_reachable [OF reachable_init this] show ?thesis .
qed

subsection \<open>Moves out of turn\<close>

text \<open>
  C3. A \<open>make_move\<close> from a socket whose colour, in the room the scan finds for it, is not
  the side to move of that room's position is answered with the error "Not your turn",
  sent to the calling socket alone; the store (and so the position) is returned as it was,
  and the outcome is the same whatever the engine's \<open>move\<close> operation is: it is not consulted.
\<close>

theorem make_move_not_your_turn:
  assumes "find_room s sid = Some (roomId, playerRoom)"
    and "map_of (players playerRoom) sid = Some player"
    and "color player \<noteq> (if chess_turn E (game playerRoom) = W then White else Black)"
  shows "make_move E s sid m = (s, [(Socket sid, Error ''Not your turn'')])
       \<and> recipients (sids s) (Socket sid) = [sid]
       \<and> (\<forall>mv. make_move (E\<lparr>chess_move := mv\<rparr>) s sid m = make_move E s sid m)"
  using assms by (simp add: make_move_def)

theorem make_move_not_your_turn_witness:
  "find_room alice_bob ''b'' = Some (4821, room_ab)
   \<and> map_of (players room_ab) ''b'' = Some bob
   \<and> color bob \<noteq> (if chess_turn recorder (game room_ab) = W then White else Black)
   \<and> make_move recorder alice_bob ''b'' e7e5 = (alice_bob, [(Socket ''b'', Error ''Not your turn'')])
   \<and> recipients (sids alice_bob) (Socket ''b'') = [''b'']
   \<and> (\<forall>mv. make_move (recorder\<lparr>chess_move := mv\<rparr>) alice_bob ''b'' e7e5
             = make_move recorder alice_bob ''b'' e7e5)"
proof -
  have f: "find_room alice_bob ''b'' = Some (4821, room_ab)"
    by (simp add: find_room_def alice_bob_def room_ab_def)
  have p: "map_of (players room_ab) ''b'' = Some bob"
    by (simp add: room_ab_def)
  have c: "color bob \<noteq> (if chess_turn recorder (game room_ab) = W then White else Black)"
    by (simp add: bob_def recorder_def room_ab_def)
  from make_move_not_your_turn [OF f p c, where m = e7e5] f p c show ?thesis
    by blast
qed

subsection \<open>Joining a full room\<close>

text \<open>
  C8. \<open>join_room\<close> on a room whose \<open>players\<close> has two entries answers "Room is full" to the
  calling socket alone and returns the store unchanged.
\<close>

theorem join_room_full:
  assumes "map_of (rooms s) room_id = Some room" and "length (players room) = 2"
  shows "join_room s sid room_id player_name = Inr (s, [(Socket sid, Error ''Room is full'')])
       \<and> recipients (sids s) (Socket sid) = [sid]"
  using assms by (simp add: join_room_def)

theorem join_room_full_witness:
  "map_of (rooms alice_bob) 4821 = Some room_ab \<and> length (players room_ab) = 2
   \<and> join_room alice_bob ''c'' 4821 ''Carol''
       = Inr (alice_bob, [(Socket ''c'', Error ''Room is full'')])
   \<and> recipients (sids alice_bob) (Socket ''c'') = [''c'']"
proof -
  have r: "map_of (rooms alice_bob) 4821 = Some room_ab"
    by (simp add: alice_bob_def)
  have l: "length (players room_ab) = 2"
    by (simp add: room_ab_def)
  from join_room_full [OF r l, where sid = "''c''" and player_name = "''Carol''"] r l
  show ?thesis by blast
qed

text \<open>
  C10. The fullness guard comes before the membership guard: a member of a two-player room
  who sends \<open>join_room\<close> for it gets "Room is full", and "You are already in this room" is
  only ever answered for a room whose single player is the caller.
\<close>

theorem full_guard_precedes_member_guard:
  "(map_of (rooms s) room_id = Some room \<and> length (players room) = 2 \<and> member_of room sid
      \<longrightarrow> join_room s sid room_id player_name
            = Inr (s, [(Socket sid, Error ''Room is full'')]))
   \<and> (join_room s sid room_id player_name = Inr (s', evs)
        \<and> (t, Error ''You are already in this room'') \<in> set evs
      \<longrightarrow> (\<exists>room p. map_of (rooms s) room_id = Some room \<and> players room = [(sid, p)]))"
proof (intro conjI impI)
  assume "map_of (rooms s) room_id = Some room \<and> length (players room) = 2
            \<and> member_of room sid"
  then show "join_room s sid room_id player_name
               = Inr (s, [(Socket sid, Error ''Room is full'')])"
    by (simp add: join_room_def)
next
  assume a: "join_room s sid room_id player_name = Inr (s', evs)
               \<and> (t, Error ''You are already in this room'') \<in> set evs"
  then obtain room where r: "map_of (rooms s) room_id = Some room"
    by (auto simp: join_room_def split: option.splits)
  from a r have short: "length (players room) < 2" and mem: "sid \<in> fst ` set (players room)"
    by (auto simp: join_room_def Let_def split: if_splits list.splits option.splits)
  from short mem obtain kv where "players room = [kv]"
    by (cases "players room") auto
  with mem have "players room = [(sid, snd kv)]"
    by auto
  with r show "\<exists>room p. map_of (rooms s) room_id = Some room \<and> players room = [(sid, p)]"
    by blast
qed

theorem full_guard_precedes_member_guard_witness:
  "join_room alice_bob ''a'' 4821 ''Alice'' = Inr (alice_bob, [(Socket ''a'', Error ''Room is full'')])
   \<and> join_room alice_waiting ''a'' 4821 ''Alice''
       = Inr (alice_waiting, [(Socket ''a'', Error ''You are already in this room'')])
   \<and> (\<exists>room p. map_of (rooms alice_waiting) 4821 = Some room \<and> players room = [(''a'', p)])"
proof -
  have full: "map_of (rooms alice_bob) 4821 = Some room_ab \<and> length (players room_ab) = 2
      \<and> member_of room_ab ''a''"
    by (simp add: alice_bob_def room_ab_def member_of_def)
  have already: "join_room alice_waiting ''a'' 4821 ''Alice''
       = Inr (alice_waiting, [(Socket ''a'', Error ''You are already in this room'')])"
    by (simp add: join_room_def alice_waiting_def room_a_def)
  from full_guard_precedes_member_guard
         [of alice_bob 4821 room_ab "''a''" "''Alice''" alice_bob "[]" "Socket ''a''"] full
  have "join_room alice_bob ''a'' 4821 ''Alice''
          = Inr (alice_bob, [(Socket ''a'', Error ''Room is full'')])"
    by blast
  moreover from full_guard_precedes_member_guard
         [of alice_waiting 4821 room_a "''a''" "''Alice''" alice_waiting
             "[(Socket ''a'', Error ''You are already in this room'')]" "Socket ''a''"] already
  have "\<exists>room p. map_of (rooms alice_waiting) 4821 = Some room \<and> players room = [(''a'', p)]"
    by simp
  ultimately show ?thesis using already by blast
qed

subsection \<open>Disconnection\<close>

text \<open>
  C1. The claim is that the notification of a disconnection carries the name and the colour
  the disconnecting player had. Evaluated on the room of Alice (white) and Bob after Alice
  disconnects: the handler has deleted her entry before it reads it, so that the payload
  Bob receives is \<open>'Unknown'\<close> and \<open>'unknown'\<close>.
\<close>

theorem disconnect_payload_unknown:
  "run recorder session_ab init = Some alice_bob
   \<and> map_of (players room_ab) ''a'' = Some \<lparr>color = White, name = ''Alice''\<rparr>
   \<and> snd (disconnect alice_bob ''a'')
       = [(SocketTo ''a'' (RoomChannel 4821), PlayerDisconnected ''Unknown'' ''unknown'' Finished)]
   \<and> recipients (sids (fst (disconnect alice_bob ''a''))) (SocketTo ''a'' (RoomChannel 4821)) = [''b'']"
  by (simp add: handler_defs concrete_defs)

text \<open>
  C6. The claim is that the room's phase becomes finished when one of its two players
  disconnects. Evaluated on the same room: the payload says \<open>game_state: 'finished'\<close>, but
  the room, now with Bob alone, still has \<open>gameState\<close> \<open>'playing'\<close>; the handler does not
  assign it.
\<close>

theorem disconnect_leaves_playing:
  "run recorder session_ab init = Some alice_bob
   \<and> map_option gameState (map_of (rooms alice_bob) 4821) = Some Playing
   \<and> map_option (\<lambda>room. (map fst (players room), gameState room))
         (map_of (rooms (fst (disconnect alice_bob ''a''))) 4821) = Some ([''b''], Playing)
   \<and> map snd (snd (disconnect alice_bob ''a''))
       = [PlayerDisconnected ''Unknown'' ''unknown'' Finished]"
  by (simp add: handler_defs concrete_defs)

subsection \<open>Room codes\<close>

text \<open>
  C2, as stated, fails: \<open>create_room\<close> draws once and assigns \<open>rooms[roomId]\<close>. When
  \<open>''c''\<close> draws the code of the live room of \<open>''a''\<close> and \<open>''b''\<close>, that room is replaced.
\<close>

theorem create_room_replaces_live_room:
  "map_option rooms (run recorder session_ab init) = Some [(4821, room_ab)]
   \<and> map_option rooms
        (run recorder (session_ab @ [Connect ''c'', CreateRoom ''c'' ''Carol'' 3821]) init)
       = Some [(4821, \<lparr>players = [(''c'', \<lparr>color = White, name = ''Carol''\<rparr>)],
                        game = [], gameState = Waiting\<rparr>)]"
  by (simp add: handler_defs concrete_defs)

text \<open>
  C2, amended. In every reachable store the codes of the rooms are pairwise distinct, and
  \<open>create_room\<close> keeps them so: it stores the new room under the one code it draws,
  \<open>1000 + draw\<close>, and the room under every other code is as before.
\<close>

theorem create_room_stores_under_drawn_code:
  assumes "reachable E s"
  shows "distinct (map fst (rooms s))
       \<and> distinct (map fst (rooms (fst (create_room E s sid playerName draw))))
       \<and> map_of (rooms (fst (create_room E s sid playerName draw)))
           = (map_of (rooms s))(1000 + draw \<mapsto>
                \<lparr>players = [(sid, \<lparr>color = White, name = playerName\<rparr>)],
                 game = chess_new E, gameState = Waiting\<rparr>)"
proof -
  from reachable_keys_ok [OF assms] have k: "sorted_wrt (<) (map fst (rooms s))"
    by (simp add: keys_ok_def)
  then have "sorted_wrt (<) (map fst (rooms (fst (create_room E s sid playerName draw))))"
    by (simp add: create_room_def Let_def sorted_idx_put)
  with k show ?thesis
    by (simp add: strict_sorted_iff create_room_def Let_def map_of_idx_put)
qed

theorem create_room_stores_under_drawn_code_witness:
  "reachable recorder alice_bob
   \<and> distinct (map fst (rooms alice_bob))
   \<and> distinct (map fst (rooms (fst (create_room recorder alice_bob ''b'' ''Bob'' 4000))))
   \<and> map_of (rooms (fst (create_room recorder alice_bob ''b'' ''Bob'' 4000)))
       = (map_of (rooms alice_bob))(1000 + 4000 \<mapsto>
            \<lparr>players = [(''b'', \<lparr>color = White, name = ''Bob''\<rparr>)],
             game = chess_new recorder, gameState = Waiting\<rparr>)"
  using create_room_stores_under_drawn_code [OF alice_bob_reachable, of "''b''" "''Bob''" 4000]
    alice_bob_reachable
  by blast

subsection \<open>Draw responses\<close>

text \<open>
  C4, as stated, fails: no handler records a draw offer. After the session in which nobody
  offered a draw, an accepting \<open>draw_response\<close> of \<open>''b''\<close> finishes the game and emits two
  events.
\<close>

theorem draw_response_without_offer:
  "run recorder session_ab init = Some alice_bob
   \<and> draw_response alice_bob ''b'' True
       = (alice_bob\<lparr>rooms := [(4821, room_ab\<lparr>gameState := Finished\<rparr>)]\<rparr>,
          [(SocketTo ''b'' (SocketChannel ''a''), DrawResponseEv True),
           (IoTo (RoomChannel 4821), GameEnded ''draw'' ''Draw by agreement'')])"
  by (simp add: handler_defs concrete_defs)

text \<open>
  C4, amended. No handler keeps a record of a draw offer: \<open>offer_draw\<close> returns the store
  as it is and emits \<open>draw_offered\<close> to the caller's opponent, or nothing when the caller
  is in no room or alone in its room. \<open>draw_response\<close> is silently ignored (same store, no
  emission) exactly when the caller is in no room or no other player is in the caller's
  room. With an opponent present, whether or not a draw was offered, the response is
  emitted to the opponent's own channel, which reaches the opponent if it is connected and
  nobody else; a declining response does nothing more, and an accepting one sets
  \<open>gameState\<close> to \<open>'finished'\<close> and emits \<open>game_ended\<close> to the room's channel.
\<close>

theorem draw_response_ignored_iff:
  "offer_draw s sid' =
     (s, case find_room s sid' of
           None \<Rightarrow> []
         | Some (roomId', playerRoom') \<Rightarrow>
             (case opponent_of playerRoom' sid' of
                None \<Rightarrow> []
              | Some opponentId' \<Rightarrow> [(SocketTo sid' (SocketChannel opponentId'), DrawOffered)]))
   \<and> (draw_response s sid accepted = (s, []) \<longleftrightarrow>
        (case find_room s sid of
           None \<Rightarrow> True
         | Some (roomId, playerRoom) \<Rightarrow> opponent_of playerRoom sid = None))
   \<and> (find_room s sid = Some (roomId, playerRoom) \<and> opponent_of playerRoom sid = Some opponentId
        \<longrightarrow> draw_response s sid accepted
            = (if accepted
               then (s\<lparr>rooms := idx_put roomId (playerRoom\<lparr>gameState := Finished\<rparr>) (rooms s)\<rparr>,
                     [(SocketTo sid (SocketChannel opponentId), DrawResponseEv True),
                      (IoTo (RoomChannel roomId), GameEnded ''draw'' ''Draw by agreement'')])
               else (s, [(SocketTo sid (SocketChannel opponentId), DrawResponseEv False)]))
          \<and> set (recipients (sids s) (SocketTo sid (SocketChannel opponentId)))
              = (if connected s opponentId then {opponentId} else {}))"
proof (intro conjI impI)
  show "offer_draw s sid' =
     (s, case find_room s sid' of
           None \<Rightarrow> []
         | Some (roomId', playerRoom') \<Rightarrow>
             (case opponent_of playerRoom' sid' of
                None \<Rightarrow> []
              | Some opponentId' \<Rightarrow> [(SocketTo sid' (SocketChannel opponentId'), DrawOffered)]))"
    by (simp add: offer_draw_def split: option.splits)
next
  show "draw_response s sid accepted = (s, []) \<longleftrightarrow>
        (case find_room s sid of
           None \<Rightarrow> True
         | Some (roomId, playerRoom) \<Rightarrow> opponent_of playerRoom sid = None)"
    by (auto simp: draw_response_def split: option.splits)
next
  assume a: "find_room s sid = Some (roomId, playerRoom)
               \<and> opponent_of playerRoom sid = Some opponentId"
  then show "draw_response s sid accepted
            = (if accepted
               then (s\<lparr>rooms := idx_put roomId (playerRoom\<lparr>gameState := Finished\<rparr>) (rooms s)\<rparr>,
                     [(SocketTo sid (SocketChannel opponentId), DrawResponseEv True),
                      (IoTo (RoomChannel roomId), GameEnded ''draw'' ''Draw by agreement'')])
               else (s, [(SocketTo sid (SocketChannel opponentId), DrawResponseEv False)]))"
    by (simp add: draw_response_def)
  from a have "opponentId \<noteq> sid"
    by (auto simp: opponent_of_def find_Some_iff)
  then show "set (recipients (sids s) (SocketTo sid (SocketChannel opponentId)))
              = (if connected s opponentId then {opponentId} else {})"
    unfolding connected_def by (rule recipients_socket_channel)
qed

theorem draw_response_ignored_iff_witness:
  "offer_draw alice_bob ''a'' = (alice_bob, [(SocketTo ''a'' (SocketChannel ''b''), DrawOffered)])
   \<and> draw_response alice_waiting ''a'' True = (alice_waiting, [])
   \<and> find_room alice_bob ''b'' = Some (4821, room_ab) \<and> opponent_of room_ab ''b'' = Some ''a''
   \<and> draw_response alice_bob ''b'' True
       = (alice_bob\<lparr>rooms := idx_put 4821 (room_ab\<lparr>gameState := Finished\<rparr>) (rooms alice_bob)\<rparr>,
          [(SocketTo ''b'' (SocketChannel ''a''), DrawResponseEv True),
           (IoTo (RoomChannel 4821), GameEnded ''draw'' ''Draw by agreement'')])
   \<and> draw_response alice_bob ''b'' False
       = (alice_bob, [(SocketTo ''b'' (SocketChannel ''a''), DrawResponseEv False)])
   \<and> set (recipients (sids alice_bob) (SocketTo ''b'' (SocketChannel ''a''))) = {''a''}"
proof -
  have f: "find_room alice_bob ''b'' = Some (4821, room_ab)"
    by (simp add: find_room_def alice_bob_def room_ab_def)
  have opp: "opponent_of room_ab ''b'' = Some ''a''"
    by (simp add: opponent_of_def room_ab_def)
  have fa: "find_room alice_bob ''a'' = Some (4821, room_ab)"
    by (simp add: find_room_def alice_bob_def room_ab_def)
  have oppa: "opponent_of room_ab ''a'' = Some ''b''"
    by (simp add: opponent_of_def room_ab_def)
  have con: "connected alice_bob ''a''"
    by (simp add: connected_def alice_bob_def)
  have alone: "(case find_room alice_waiting ''a'' of
           None \<Rightarrow> True
         | Some (roomId, playerRoom) \<Rightarrow> opponent_of playerRoom ''a'' = None)"
    by (simp add: find_room_def opponent_of_def alice_waiting_def room_a_def)
  from draw_response_ignored_iff [of alice_bob "''a''" "''b''" True 4821 room_ab "''a''"]
    f opp fa oppa con
  have 1: "offer_draw alice_bob ''a''
             = (alice_bob, [(SocketTo ''a'' (SocketChannel ''b''), DrawOffered)])"
    and 2: "draw_response alice_bob ''b'' True
       = (alice_bob\<lparr>rooms := idx_put 4821 (room_ab\<lparr>gameState := Finished\<rparr>) (rooms alice_bob)\<rparr>,
          [(SocketTo ''b'' (SocketChannel ''a''), DrawResponseEv True),
           (IoTo (RoomChannel 4821), GameEnded ''draw'' ''Draw by agreement'')])"
    and 3: "set (recipients (sids alice_bob) (SocketTo ''b'' (SocketChannel ''a''))) = {''a''}"
    by simp_all
  from draw_response_ignored_iff [of alice_bob "''a''" "''b''" False 4821 room_ab "''a''"] f opp
  have 4: "draw_response alice_bob ''b'' False
       = (alice_bob, [(SocketTo ''b'' (SocketChannel ''a''), DrawResponseEv False)])"
    by simp
  from draw_response_ignored_iff [of alice_waiting "''a''" "''a''" True 4821 room_a "''b''"] alone
  have 5: "draw_response alice_waiting ''a'' True = (alice_waiting, [])"
    by blast
  from 1 2 3 4 5 f opp show ?thesis by blast
qed

subsection \<open>Phases\<close>

text \<open>
  C5, as stated, fails: \<open>join_room\<close> assigns \<open>'playing'\<close> whatever the phase was. After
  \<open>''b''\<close> resigned and disconnected, the finished room has one player, and the join of
  \<open>''c''\<close> makes it \<open>'playing'\<close> again.
\<close>

theorem join_room_reopens_finished_room:
  "map_option (\<lambda>s. map_option gameState (map_of (rooms s) 4821))
      (run recorder (session_ab @ [ResignGame ''b'', Disconnect ''b'', Connect ''c'']) init)
     = Some (Some Finished)
   \<and> map_option (\<lambda>s. map_option gameState (map_of (rooms s) 4821))
      (run recorder (session_ab @ [ResignGame ''b'', Disconnect ''b'', Connect ''c'',
                                   JoinRoom ''c'' 4821 ''Carol'']) init)
     = Some (Some Playing)"
  by (simp add: handler_defs concrete_defs)

text \<open>
  C5, amended. Across one step from a reachable store, the phase of the room stored under a
  code does not move backward, except in two cases: a successful \<open>join_room\<close> on a
  finished room, which makes it \<open>'playing'\<close>, and a \<open>create_room\<close> that draws the code,
  which stores a new \<open>'waiting'\<close> room there.
\<close>

theorem phase_forward_except_join:
  assumes "reachable E s" and "step E i s = Inr (s', evs)"
    and "map_of (rooms s) c = Some r" and "map_of (rooms s') c = Some r'"
  shows "phase_rank (gameState r) \<le> phase_rank (gameState r')
       \<or> (\<exists>sid nm. i = JoinRoom sid c nm \<and> length (players r) < 2 \<and> \<not> member_of r sid
             \<and> gameState r = Finished \<and> gameState r' = Playing)
       \<or> (\<exists>sid nm draw. i = CreateRoom sid nm draw \<and> c = 1000 + draw \<and> gameState r' = Waiting)"
proof -
  have fin: "phase_rank g \<le> phase_rank Finished" for g by (cases g) simp_all
  have play: "g \<noteq> Finished \<Longrightarrow> phase_rank g \<le> phase_rank Playing" for g by (cases g) simp_all
  from step_room_cases [OF reachable_keys_ok [OF assms(1)] assms(2) assms(4)] assms(3)
  consider (same) "gameState r' = gameState r"
    | (finished) "gameState r' = Finished"
    | (join) nm where "i = JoinRoom (sender i) c nm" and "length (players r) < 2"
        and "\<not> member_of r (sender i)" and "gameState r' = Playing"
    | (create) nm draw where "i = CreateRoom (sender i) nm draw" and "c = 1000 + draw"
        and "gameState r' = Waiting"
    by (elim disjE exE conjE) auto
  then show ?thesis
  proof cases
    case same
    then show ?thesis by simp
  next
    case finished
    with fin [of "gameState r"] show ?thesis by simp
  next
    case join
    show ?thesis
    proof (cases "gameState r = Finished")
      case True
      with join show ?thesis by blast
    next
      case False
      with join(4) play [of "gameState r"] show ?thesis by simp
    qed
  next
    case create
    then show ?thesis by blast
  qed
qed

theorem phase_forward_except_join_witness:
  "reachable recorder alice_bob
   \<and> step recorder (ResignGame ''b'') alice_bob
       = Inr (alice_bob_finished, [(SocketTo ''b'' (SocketChannel ''a''), OpponentResigned)])
   \<and> map_of (rooms alice_bob) 4821 = Some room_ab
   \<and> map_of (rooms alice_bob_finished) 4821 = Some room_ab_finished
   \<and> phase_rank (gameState room_ab) \<le> phase_rank (gameState room_ab_finished)"
proof -
  have st: "step recorder (ResignGame ''b'') alice_bob
       = Inr (alice_bob_finished, [(SocketTo ''b'' (SocketChannel ''a''), OpponentResigned)])"
    by (simp add: handler_defs concrete_defs)
  have r: "map_of (rooms alice_bob) 4821 = Some room_ab"
    by (simp add: alice_bob_def)
  have r': "map_of (rooms alice_bob_finished) 4821 = Some room_ab_finished"
    by (simp add: alice_bob_finished_def)
  from phase_forward_except_join [OF alice_bob_reachable st r r']
  have "phase_rank (gameState room_ab) \<le> phase_rank (gameState room_ab_finished)"
    by simp
  with alice_bob_reachable st r r' show ?thesis by blast
qed

subsection \<open>Membership\<close>

text \<open>
  C7, as stated, fails for both intents: neither \<open>create_room\<close> nor \<open>join_room\<close> looks at
  the caller's other rooms. A socket that creates two rooms is in the \<open>players\<close> of both,
  and so is a socket that creates one room and then joins another.
\<close>

theorem member_of_two_rooms:
  "map_option (\<lambda>s. (in_room s 4821 ''a'', in_room s 5000 ''a''))
      (run recorder
         [Connect ''a'', CreateRoom ''a'' ''Alice'' 3821, CreateRoom ''a'' ''Alice'' 4000] init)
     = Some (True, True)
   \<and> map_option (\<lambda>s. (in_room s 4821 ''a'', in_room s 5000 ''a''))
      (run recorder
         [Connect ''a'', CreateRoom ''a'' ''Alice'' 3821, Connect ''b'',
          CreateRoom ''b'' ''Bob'' 4000, JoinRoom ''a'' 5000 ''Alice''] init)
     = Some (True, True)"
  by (simp add: handler_defs concrete_defs in_room_def)

text \<open>
  C7, amended. Across one step from a reachable store, a socket that is in the \<open>players\<close>
  of the room under a code was there before, or the step is its own \<open>create_room\<close> that
  drew this code, or its own \<open>join_room\<close> on this code: each intent adds its caller to at
  most one room and nobody else to any. Membership of other rooms plays no part in either
  intent: \<open>create_room\<close> always makes the caller a player of the room under the drawn
  code, \<open>join_room\<close> on a room whose single player is not the caller always makes the
  caller a player of it, and both leave the caller's membership of every other room as it
  was.
\<close>

theorem member_only_by_own_create_or_join:
  "(reachable E s \<and> step E i s = Inr (s', evs) \<and> in_room s' c sid
      \<longrightarrow> in_room s c sid
          \<or> (\<exists>nm draw. i = CreateRoom sid nm draw \<and> c = 1000 + draw)
          \<or> (\<exists>nm. i = JoinRoom sid c nm))
   \<and> in_room (fst (create_room E s sid playerName draw)) (1000 + draw) sid
   \<and> (\<forall>c'. c' \<noteq> 1000 + draw
          \<longrightarrow> in_room (fst (create_room E s sid playerName draw)) c' sid = in_room s c' sid)
   \<and> (map_of (rooms s) room_id = Some room \<and> length (players room) = 1
        \<and> \<not> member_of room sid
      \<longrightarrow> (\<exists>s'' evs''. join_room s sid room_id player_name = Inr (s'', evs'')
              \<and> in_room s'' room_id sid
              \<and> (\<forall>c'. c' \<noteq> room_id \<longrightarrow> in_room s'' c' sid = in_room s c' sid)))"
proof (intro conjI impI allI)
  assume a: "reachable E s \<and> step E i s = Inr (s', evs) \<and> in_room s' c sid"
  then obtain r' where r': "map_of (rooms s') c = Some r'" and m: "member_of r' sid"
    by (auto simp: in_room_def split: option.splits)
  from a have "reachable E s" and st: "step E i s = Inr (s', evs)"
    by simp_all
  then have ok: "keys_ok s"
    by (simp add: reachable_keys_ok)
  from step_member_cases [OF ok st r' m]
  show "in_room s c sid
          \<or> (\<exists>nm draw. i = CreateRoom sid nm draw \<and> c = 1000 + draw)
          \<or> (\<exists>nm. i = JoinRoom sid c nm)"
    by (auto simp: in_room_def)
next
  show "in_room (fst (create_room E s sid playerName draw)) (1000 + draw) sid"
    by (simp add: in_room_def create_room_def Let_def map_of_idx_put member_of_def)
next
  fix c' :: room_code
  assume "c' \<noteq> 1000 + draw"
  then show "in_room (fst (create_room E s sid playerName draw)) c' sid = in_room s c' sid"
    by (simp add: in_room_def create_room_def Let_def map_of_idx_put)
next
  assume a: "map_of (rooms s) room_id = Some room \<and> length (players room) = 1
               \<and> \<not> member_of room sid"
  then obtain p0 pl where ps: "players room = [(p0, pl)]"
    by (cases "players room") auto
  with a have ne: "p0 \<noteq> sid"
    by (auto simp: member_of_def)
  let ?room' = "room\<lparr>players := obj_put sid \<lparr>color = Black, name = player_name\<rparr> (players room),
                      gameState := Playing\<rparr>"
  let ?s'' = "s\<lparr>rooms := idx_put room_id ?room' (rooms s),
                sids := sio_join sid room_id (sids s)\<rparr>"
  let ?evs = "[(Socket sid, RoomJoined room_id Black (name pl) Playing),
               (SocketTo sid (RoomChannel room_id), OpponentJoined player_name Playing)]"
  from a ps ne have j: "join_room s sid room_id player_name = Inr (?s'', ?evs)"
    by (simp add: join_room_def Let_def)
  have mem: "in_room ?s'' room_id sid"
    by (simp add: in_room_def map_of_idx_put member_of_def keys_obj_put)
  have other: "\<forall>c'. c' \<noteq> room_id \<longrightarrow> in_room ?s'' c' sid = in_room s c' sid"
    by (simp add: in_room_def map_of_idx_put)
  from j mem other
  show "\<exists>s'' evs''. join_room s sid room_id player_name = Inr (s'', evs'')
              \<and> in_room s'' room_id sid
              \<and> (\<forall>c'. c' \<noteq> room_id \<longrightarrow> in_room s'' c' sid = in_room s c' sid)"
    by blast
qed

theorem member_only_by_own_create_or_join_witness:
  "reachable recorder only_a
   \<and> step recorder (CreateRoom ''a'' ''Alice'' 3821) only_a
       = Inr (alice_waiting, [(Socket ''a'', RoomCreated 4821 White Waiting)])
   \<and> in_room alice_waiting 4821 ''a'' \<and> \<not> in_room only_a 4821 ''a''
   \<and> (\<exists>nm draw. CreateRoom ''a'' ''Alice'' 3821 = CreateRoom ''a'' nm draw \<and> 4821 = 1000 + draw)
   \<and> in_room (fst (create_room recorder alice_waiting ''a'' ''Alice'' 4000)) 5000 ''a''
   \<and> in_room (fst (create_room recorder alice_waiting ''a'' ''Alice'' 4000)) 4821 ''a''
   \<and> map_of (rooms two_rooms) 5000 = Some room_b \<and> length (players room_b) = 1
   \<and> \<not> member_of room_b ''a'' \<and> in_room two_rooms 4821 ''a''
   \<and> (\<exists>s'' evs''. join_room two_rooms ''a'' 5000 ''Alice'' = Inr (s'', evs'')
         \<and> in_room s'' 5000 ''a'' \<and> in_room s'' 4821 ''a'')"
proof -
  have st: "step recorder (CreateRoom ''a'' ''Alice'' 3821) only_a
       = Inr (alice_waiting, [(Socket ''a'', RoomCreated 4821 White Waiting)])"
    by (simp add: handler_defs concrete_defs)
  have mem: "in_room alice_waiting 4821 ''a''"
    by (simp add: in_room_def member_of_def alice_waiting_def room_a_def)
  have nomem: "\<not> in_room only_a 4821 ''a''"
    by (simp add: in_room_def only_a_def)
  have rb: "map_of (rooms two_rooms) 5000 = Some room_b"
    by (simp add: two_rooms_def)
  have lb: "length (players room_b) = 1"
    by (simp add: room_b_def)
  have nb: "\<not> member_of room_b ''a''"
    by (simp add: member_of_def room_b_def)
  have ma: "in_room two_rooms 4821 ''a''"
    by (simp add: in_room_def member_of_def two_rooms_def room_a_def)
  from member_only_by_own_create_or_join
         [of recorder only_a "CreateRoom ''a'' ''Alice'' 3821" alice_waiting
             "[(Socket ''a'', RoomCreated 4821 White Waiting)]" 4821 "''a''"]
       only_a_reachable st mem nomem
  have 1: "\<exists>nm draw. CreateRoom ''a'' ''Alice'' 3821 = CreateRoom ''a'' nm draw
             \<and> 4821 = 1000 + draw"
    by simp
  from member_only_by_own_create_or_join
         [where E = recorder and s = alice_waiting and sid = "''a''" and playerName = "''Alice''"
            and draw = 4000] mem
  have 2: "in_room (fst (create_room recorder alice_waiting ''a'' ''Alice'' 4000)) 5000 ''a''"
    and 3: "in_room (fst (create_room recorder alice_waiting ''a'' ''Alice'' 4000)) 4821 ''a''"
    by simp_all
  from member_only_by_own_create_or_join
         [where s = two_rooms and sid = "''a''" and room_id = 5000 and room = room_b
            and player_name = "''Alice''", THEN conjunct2, THEN conjunct2, THEN conjunct2]
       rb lb nb
  obtain s'' evs'' where j: "join_room two_rooms ''a'' 5000 ''Alice'' = Inr (s'', evs'')"
    and m5: "in_room s'' 5000 ''a''"
    and o: "\<forall>c'. c' \<noteq> 5000 \<longrightarrow> in_room s'' c' ''a'' = in_room two_rooms c' ''a''"
    by blast
  from o ma have "in_room s'' 4821 ''a''"
    by simp
  with j m5
  have 4: "\<exists>s'' evs''. join_room two_rooms ''a'' 5000 ''Alice'' = Inr (s'', evs'')
         \<and> in_room s'' 5000 ''a'' \<and> in_room s'' 4821 ''a''"
    by blast
  from only_a_reachable st mem nomem 1 2 3 rb lb nb ma 4 show ?thesis by blast
qed

subsection \<open>Moves without a promotion piece\<close>


end
